theory Spec2Isabelle
  imports Main "HOL-Library.AList"
begin

section \<open>The Astro generator of Mitosis: strings\<close>

text \<open>
  JavaScript strings are modelled as lists of characters. The predicates below are the
  character classes the generator's string functions and regular expressions read:
  \<open>\w\<close> of a JavaScript regular expression without the unicode flag is
  \<open>[A-Za-z0-9_]\<close>; \<open>String.prototype.trim\<close> removes white space and line
  terminators, of which the code units below 256 are listed.
\<close>

definition isWord :: "char \<Rightarrow> bool" where
  "isWord c =
     (let n = (of_char c :: nat)
      in (48 \<le> n \<and> n \<le> 57) \<or> (65 \<le> n \<and> n \<le> 90) \<or> n = 95 \<or> (97 \<le> n \<and> n \<le> 122))"

definition isWhitespace :: "char \<Rightarrow> bool" where
  "isWhitespace c = ((of_char c :: nat) \<in> {9, 10, 11, 12, 13, 32, 160})"

definition trim :: "string \<Rightarrow> string" where
  "trim s = rev (dropWhile isWhitespace (rev (dropWhile isWhitespace s)))"

fun startsWith :: "string \<Rightarrow> string \<Rightarrow> bool" where
  "startsWith s [] = True"
| "startsWith [] (p # ps) = False"
| "startsWith (c # cs) (p # ps) = (c = p \<and> startsWith cs ps)"

definition endsWith :: "string \<Rightarrow> string \<Rightarrow> bool" where
  "endsWith s p = startsWith (rev s) (rev p)"

fun str_includes :: "string \<Rightarrow> string \<Rightarrow> bool" where
  "str_includes [] p = (p = [])"
| "str_includes (c # cs) p = (startsWith (c # cs) p \<or> str_includes cs p)"

fun str_join :: "string \<Rightarrow> string list \<Rightarrow> string" where
  "str_join sep [] = []"
| "str_join sep [x] = x"
| "str_join sep (x # y # ys) = x @ sep @ str_join sep (y # ys)"

definition digit_char :: "nat \<Rightarrow> char" where
  "digit_char d = char_of (48 + d)"

fun string_of_nat :: "nat \<Rightarrow> string" where
  "string_of_nat n =
     (if n < 10 then [digit_char n] else string_of_nat (n div 10) @ [digit_char (n mod 10)])"

declare string_of_nat.simps [simp del]

section \<open>Replacing container references\<close>

text \<open>
  \<open>processed.replace(/\bstate\.(\w+)/g, '$1')\<close> and its siblings scan the text from
  left to right. At a position the pattern matches when the position is a word boundary
  (the pattern starts with a word character, so the character before must not be one),
  the container's name and a dot follow, and at least one word character follows the dot;
  the group takes the longest run of word characters. A match is replaced and the scan
  goes on behind it; any other character is copied. \<open>prev\<close> says whether the
  character before the position is a word character; \<open>f\<close> builds the replacement
  from the group.
\<close>

definition matchesAt :: "string \<Rightarrow> string \<Rightarrow> bool" where
  "matchesAt c s =
     (startsWith s (c @ ''.'') \<and> (case drop (length c + 1) s of [] \<Rightarrow> False | x # _ \<Rightarrow> isWord x))"

function replaceRef :: "string \<Rightarrow> (string \<Rightarrow> string) \<Rightarrow> bool \<Rightarrow> string \<Rightarrow> string" where
  "replaceRef c f prev [] = []"
| "replaceRef c f prev (x # xs) =
     (if \<not> prev \<and> matchesAt c (x # xs)
      then f (takeWhile isWord (drop (length c + 1) (x # xs)))
             @ replaceRef c f True (dropWhile isWord (drop (length c + 1) (x # xs)))
      else x # replaceRef c f (isWord x) xs)"
  by pat_completeness auto
termination
proof (relation "measure (\<lambda>(c, f, prev, s). length s)")
  show "wf (measure (\<lambda>(c, f, prev, s). length s))"
    by simp
next
  fix c :: string and f :: "string \<Rightarrow> string" and prev :: bool and x :: char and xs :: string
  have "length (dropWhile isWord (drop (length c + 1) (x # xs))) \<le> length (drop (length c + 1) (x # xs))"
    by (rule length_dropWhile_le)
  then show "((c, f, True, dropWhile isWord (drop (length c + 1) (x # xs))), c, f, prev, x # xs)
        \<in> measure (\<lambda>(c, f, prev, s). length s)"
    by simp
next
  fix c :: string and f :: "string \<Rightarrow> string" and prev :: bool and x :: char and xs :: string
  show "((c, f, isWord x, xs), c, f, prev, x # xs) \<in> measure (\<lambda>(c, f, prev, s). length s)"
    by simp
qed

declare replaceRef.simps [simp del]

datatype binding_context = Frontmatter | Template

text \<open>
  The replacement patterns \<open>'$1'\<close> and \<open>'props.$1'\<close>, as functions of the group.
\<close>

definition group1 :: "string \<Rightarrow> string" where
  "group1 n = n"

definition props_group1 :: "string \<Rightarrow> string" where
  "props_group1 n = ''props.'' @ n"

text \<open>
  The two replacements of \<open>processBinding\<close>: in a template both containers' references
  become the plain name; in the frontmatter \<open>props.$1\<close> is written back for a props
  reference.
\<close>

definition substituteRefs :: "binding_context \<Rightarrow> string \<Rightarrow> string" where
  "substituteRefs ctx src =
     (case ctx of
        Template \<Rightarrow>
          replaceRef ''props'' group1 False (replaceRef ''state'' group1 False src)
      | Frontmatter \<Rightarrow>
          replaceRef ''props'' props_group1 False (replaceRef ''state'' group1 False src))"

section \<open>The intermediate representation\<close>

text \<open>
  A Mitosis node carries a tag name, literal properties, bindings, children and, for a
  \<open>Show\<close> node, its else branch under \<open>meta.else\<close>. Properties and bindings
  are objects read both by key and in enumeration order, so they are association lists
  in that order. A binding's entry may be \<open>undefined\<close>.
\<close>

datatype binding_type = Single | Spread

record binding =
  code :: string
  type :: binding_type
  arguments :: "string list option"
  async :: bool

datatype node =
  Node (name: string)
       (properties: "(string \<times> string) list")
       (bindings: "(string \<times> binding option) list")
       (children: "node list")
       (meta_else: "node option")

record base_hook =
  hook_code :: string
  deps :: "string option"

record hooks =
  onInit :: "base_hook option"
  onMount :: "base_hook list"
  onUpdate :: "base_hook list option"

record state_value =
  state_code :: string

record prop_def =
  propertyType :: "string option"
  optional :: "bool option"

record component =
  state :: "(string \<times> state_value option) list"
  props :: "(string \<times> prop_def option) list"
  hooks :: hooks
  componentChildren :: "node list"
  propsTypeRef :: "string option"

section \<open>Effects and collaborators\<close>

text \<open>
  The generator writes to two places besides its result: the console, and the map
  \<open>options.cssInJs\<close> in which \<open>collectClassString\<close> records the scoped classes
  (a JavaScript \<open>Map\<close>, kept in insertion order, absent until first used). Both are
  threaded through the functions as a \<open>gen_state\<close>. An exception is a value of type
  \<open>error\<close>; a function that may throw returns \<open>error + 'a\<close>.
\<close>

datatype error = Error string

datatype console_arg = Text string | Thrown error

record gen_state =
  cssInJs :: "(string \<times> string) list option"
  console :: "console_arg list list"

text \<open>
  The helper modules of the repository and the libraries the generator imports are not
  among its source files; the generator is parametrised by them. The visitor handed to
  \<open>babelTransformExpression\<close> is fixed by the context, so the context stands for it.
\<close>

record helpers =
  babelTransformExpression :: "string \<Rightarrow> binding_context \<Rightarrow> error + string"
  checkIsEvent :: "string \<Rightarrow> bool"
  filterEmptyTextNodes :: "node \<Rightarrow> bool"
  checkIsForNode :: "node \<Rightarrow> bool"
  getForArguments :: "node \<Rightarrow> string list"
  getRefs :: "component \<Rightarrow> string list"
  hash :: "string \<Rightarrow> string"
  kebabCase :: "string \<Rightarrow> string"
  camelCase :: "string \<Rightarrow> string"
  SELF_CLOSING_HTML_TAGS :: "string set"

section \<open>The binding processor\<close>

definition dquote :: char where
  "dquote = CHR 0x22"

definition newline :: char where
  "newline = CHR 0x0A"

text \<open>
  \<open>processBinding(code, context, options)\<close>. The body of its \<open>try\<close> block is
  \<open>processBinding_try\<close>: the replacements cannot throw, the Babel transform can. The
  \<open>catch\<close> block warns on the console and returns the code it was given.
\<close>

definition processBinding_try :: "helpers \<Rightarrow> string \<Rightarrow> binding_context \<Rightarrow> error + string" where
  "processBinding_try H src ctx = babelTransformExpression H (substituteRefs ctx src) ctx"

definition processBinding ::
  "helpers \<Rightarrow> string \<Rightarrow> binding_context \<Rightarrow> gen_state \<Rightarrow> string \<times> gen_state" where
  "processBinding H src ctx st =
     (if trim src = [] then ([], st)
      else case processBinding_try H src ctx of
             Inr processed \<Rightarrow> (processed, st)
           | Inl err \<Rightarrow>
               (src,
                st\<lparr>console := console st @
                  [[Text (''Astro: Failed to process binding '' @ [dquote] @ src @ [dquote] @ '':''),
                    Thrown err]]\<rparr>))"

section \<open>Constants of the generator\<close>

definition CLIENT_DIRECTIVES_load :: string where
  "CLIENT_DIRECTIVES_load = ''client:load''"

definition CLIENT_DIRECTIVES_idle :: string where
  "CLIENT_DIRECTIVES_idle = ''client:idle''"

definition INTERACTIVE_EVENTS :: "string list" where
  "INTERACTIVE_EVENTS =
     [''onClick'', ''onChange'', ''onInput'', ''onSubmit'', ''onFocus'', ''onBlur'',
      ''onMouseOver'', ''onMouseOut'', ''onMouseEnter'', ''onMouseLeave'',
      ''onKeyDown'', ''onKeyUp'', ''onKeyPress'', ''onScroll'', ''onResize'',
      ''onLoad'', ''onError'', ''onAbort'', ''onCanPlay'', ''onCanPlayThrough'',
      ''onDurationChange'', ''onEmptied'', ''onEnded'', ''onLoadedData'',
      ''onLoadedMetadata'', ''onLoadStart'', ''onPause'', ''onPlay'',
      ''onPlaying'', ''onProgress'', ''onRateChange'', ''onSeeked'',
      ''onSeeking'', ''onStalled'', ''onSuspend'', ''onTimeUpdate'',
      ''onVolumeChange'', ''onWaiting'', ''onWheel'']"

section \<open>The hydration analyzer\<close>

record hydration_analysis =
  needsHydration :: bool
  reason :: "string list"
  suggestedDirective :: string

text \<open>
  \<open>checkNodeForInteractivity\<close> is the closure inside \<open>analyzeHydrationNeeds\<close>; the
  two variables it assigns, \<open>hasInteractiveEvents\<close> and \<open>reasons\<close>, are passed in and
  returned. At the first key of the node's bindings that is an interactive event it
  records the reason and returns without visiting the children.
\<close>

fun checkNodeForInteractivity :: "node \<Rightarrow> bool \<times> string list \<Rightarrow> bool \<times> string list" where
  "checkNodeForInteractivity (Node nm ps bs cs m) (hasInteractiveEvents, reasons) =
     (case find (\<lambda>key. key \<in> set INTERACTIVE_EVENTS) (map fst bs) of
        Some key \<Rightarrow>
          (True, reasons @ [''Found interactive event: '' @ key @ '' on '' @ nm])
      | None \<Rightarrow> fold checkNodeForInteractivity cs (hasInteractiveEvents, reasons))"

definition analyzeHydrationNeeds :: "helpers \<Rightarrow> component \<Rightarrow> hydration_analysis" where
  "analyzeHydrationNeeds H json =
     (let refs = getRefs H json;
          (needs1, reasons1) =
            (if length refs > 0
             then (True, [''Component uses '' @ string_of_nat (length refs) @ '' ref(s): ''
                           @ str_join '', '' refs])
             else (False, []));
          (needs2, reasons2) =
            (if length (onMount (hooks json)) > 0
             then (True, reasons1 @ [''Component has ''
                           @ string_of_nat (length (onMount (hooks json))) @ '' onMount hook(s)''])
             else (needs1, reasons1));
          (needs3, reasons3) =
            (case onUpdate (hooks json) of
               Some upd \<Rightarrow>
                 (True, reasons2 @ [''Component has ''
                           @ string_of_nat (length upd) @ '' onUpdate hook(s)''])
             | None \<Rightarrow> (needs2, reasons2));
          (hasInteractiveEvents, reasons4) =
            fold checkNodeForInteractivity (componentChildren json) (False, reasons3);
          needs4 = (if hasInteractiveEvents then True else needs3);
          directive1 = CLIENT_DIRECTIVES_load;
          directive2 =
            (if hasInteractiveEvents \<and> length refs = 0 then CLIENT_DIRECTIVES_idle else directive1);
          directive3 =
            (if list_ex (\<lambda>r. str_includes r ''onMount'') reasons4
             then CLIENT_DIRECTIVES_load else directive2)
      in \<lparr>needsHydration = needs4, reason = reasons4, suggestedDirective = directive3\<rparr>)"

section \<open>The class collector\<close>

text \<open>
  The options of the generator; each may be absent. A plugin is a function that the
  generator never calls itself: it hands the list to the plugin stages, so a plugin is
  represented by its name.
\<close>

type_synonym plugin = string

record options =
  clientDirective :: "string option"
  typescript :: "bool option"
  plugins :: "plugin list option"
  prettier :: "bool option"
  explicitImportFileExtension :: "bool option"

definition binding_at :: "node \<Rightarrow> string \<Rightarrow> binding option" where
  "binding_at n key = (case map_of (bindings n) key of Some (Some b) \<Rightarrow> Some b | _ \<Rightarrow> None)"

definition quoted :: "string \<Rightarrow> string" where
  "quoted s = [dquote] @ s @ [dquote]"

text \<open>
  \<open>collectClassString(node, options)\<close>: the list \<open>classes\<close> is built in five steps,
  the last of which also writes the scoped class into \<open>options.cssInJs\<close>.
\<close>

definition staticClass :: "node \<Rightarrow> string \<Rightarrow> string list" where
  "staticClass n key =
     (case map_of (properties n) key of
        Some v \<Rightarrow> if trim v \<noteq> [] then [quoted (trim v)] else []
      | None \<Rightarrow> [])"

definition dynamicClass :: "helpers \<Rightarrow> node \<Rightarrow> string \<Rightarrow> gen_state \<Rightarrow> string list \<times> gen_state" where
  "dynamicClass H n key st =
     (case binding_at n key of
        Some b \<Rightarrow>
          if trim (code b) \<noteq> []
          then (case processBinding H (code b) Template st of
                  (processedCode, st') \<Rightarrow> ([''('' @ processedCode @ '')''], st'))
          else ([], st)
      | None \<Rightarrow> ([], st))"

definition cssClass :: "helpers \<Rightarrow> node \<Rightarrow> gen_state \<Rightarrow> string list \<times> gen_state" where
  "cssClass H n st =
     (case binding_at n ''css'' of
        Some b \<Rightarrow>
          if trim (code b) \<noteq> []
          then (let cssHash = hash H (code b);
                    scopedClassName =
                      kebabCase H (if name n = [] then ''element'' else name n) @ ''-'' @ cssHash
                in ([quoted scopedClassName],
                    st\<lparr>cssInJs := Some (AList.update scopedClassName (code b)
                                          (case cssInJs st of None \<Rightarrow> [] | Some m \<Rightarrow> m))\<rparr>))
          else ([], st)
      | None \<Rightarrow> ([], st))"

definition collectClasses :: "helpers \<Rightarrow> node \<Rightarrow> gen_state \<Rightarrow> string list \<times> gen_state" where
  "collectClasses H n st =
     (case dynamicClass H n ''class'' st of (c3, st1) \<Rightarrow>
      case dynamicClass H n ''className'' st1 of (c4, st2) \<Rightarrow>
      case cssClass H n st2 of (c5, st3) \<Rightarrow>
        (staticClass n ''class'' @ staticClass n ''className'' @ c3 @ c4 @ c5, st3))"

definition collectClassString :: "helpers \<Rightarrow> node \<Rightarrow> gen_state \<Rightarrow> string \<times> gen_state" where
  "collectClassString H n st =
     (case collectClasses H n st of (classes, st') \<Rightarrow>
        if length classes = 0 then ([], st')
        else if length classes = 1 \<and> startsWith (hd classes) [dquote] \<and> endsWith (hd classes) [dquote]
        then (''class='' @ hd classes, st')
        else (''class={['' @ str_join '', '' classes @ ''].filter(Boolean).join(' ')}'', st'))"

section \<open>The node renderer\<close>

text \<open>
  The loop over \<open>Object.entries(node.properties)\<close> of \<open>blockToAstro\<close>.
\<close>

definition renderProperty :: "string \<times> string \<Rightarrow> string \<Rightarrow> string" where
  "renderProperty kv elementString =
     (case kv of (key, v) \<Rightarrow>
        if key = ''class'' \<or> key = ''className'' \<or> key = ''_text'' then elementString
        else elementString @ '' '' @ key @ ''='' @ quoted v)"

text \<open>
  The body of the loop over \<open>Object.entries(node.bindings)\<close>; the loop's variables are
  \<open>elementString\<close> and \<open>needsClientDirective\<close>.
\<close>

definition renderBinding ::
  "helpers \<Rightarrow> node \<Rightarrow> string \<times> binding option \<Rightarrow> string \<times> bool \<times> gen_state
     \<Rightarrow> string \<times> bool \<times> gen_state" where
  "renderBinding H n kb acc =
     (case kb of (key, entry) \<Rightarrow>
      case acc of (elementString, needsClientDirective, st) \<Rightarrow>
      case entry of
        None \<Rightarrow> acc
      | Some b \<Rightarrow>
          if trim (code b) = [] then acc
          else if key = ''class'' \<or> key = ''className'' \<or> key = ''css'' \<or> key = ''_text'' then acc
          else if type b = Spread then
            (case processBinding H (code b) Template st of (spreadCode, st') \<Rightarrow>
               (elementString @ '' {...('' @ spreadCode @ '')}'', needsClientDirective, st'))
          else if key = ''ref'' then
            (elementString @ '' bind:this={'' @ camelCase H (code b) @ ''}'', True, st)
          else if checkIsEvent H key then
            (let eventName = (if key = ''onChange'' \<and> name n = ''input'' then ''onInput'' else key)
             in case processBinding H (code b) Template st of (handlerCode, st') \<Rightarrow>
               (elementString @ '' '' @ eventName @ ''={'' @ (if async b then ''async '' else [])
                  @ ''('' @ str_join '','' (case arguments b of None \<Rightarrow> [''event''] | Some a \<Rightarrow> a)
                  @ '') => '' @ handlerCode @ ''}'',
                needsClientDirective \<or> key \<in> set INTERACTIVE_EVENTS, st'))
          else if key = ''innerHTML'' then
            (case processBinding H (code b) Template st of (htmlCode, st') \<Rightarrow>
               (elementString @ '' set:html={'' @ htmlCode @ ''}'', needsClientDirective, st'))
          else if key = ''style'' then
            (case processBinding H (code b) Template st of (styleCode, st') \<Rightarrow>
               (elementString @ '' style={'' @ styleCode @ ''}'', needsClientDirective, st'))
          else
            (case processBinding H (code b) Template st of (attrCode, st') \<Rightarrow>
               (elementString @ '' '' @ key @ ''={'' @ attrCode @ ''}'', needsClientDirective, st')))"

text \<open>
  \<open>options.clientDirective || CLIENT_DIRECTIVES.idle\<close>: an absent or empty option
  gives the default.
\<close>

definition directive :: "options \<Rightarrow> string" where
  "directive opts =
     (case clientDirective opts of
        None \<Rightarrow> CLIENT_DIRECTIVES_idle
      | Some d \<Rightarrow> if d = [] then CLIENT_DIRECTIVES_idle else d)"

text \<open>
  The part of \<open>blockToAstro\<close> for a regular element up to the client directive: the
  opening tag without its end.
\<close>

definition renderOpenTag :: "helpers \<Rightarrow> options \<Rightarrow> node \<Rightarrow> gen_state \<Rightarrow> string \<times> gen_state" where
  "renderOpenTag H opts n st =
     (case collectClassString H n st of (classAttr, st1) \<Rightarrow>
      let e1 = ''<'' @ name n;
          e2 = (if classAttr \<noteq> [] then e1 @ '' '' @ classAttr else e1);
          e3 = fold renderProperty (properties n) e2
      in case fold (renderBinding H n) (bindings n) (e3, False, st1) of
           (e4, needsClientDirective, st2) \<Rightarrow>
             if needsClientDirective \<and> clientDirective opts \<noteq> Some ''none''
             then (e4 @ '' '' @ directive opts, st2)
             else (e4, st2))"

definition textProperty :: "node \<Rightarrow> string option" where
  "textProperty n =
     (case map_of (properties n) ''_text'' of
        Some t \<Rightarrow> if t \<noteq> [] then Some t else None
      | None \<Rightarrow> None)"

definition truthyCode :: "node \<Rightarrow> string \<Rightarrow> string option" where
  "truthyCode n key =
     (case binding_at n key of
        Some b \<Rightarrow> if code b \<noteq> [] then Some (code b) else None
      | None \<Rightarrow> None)"

definition codeOrEmpty :: "node \<Rightarrow> string \<Rightarrow> string" where
  "codeOrEmpty n key = (case truthyCode n key of Some c \<Rightarrow> c | None \<Rightarrow> [])"

text \<open>
  \<open>blockToAstro(node, options)\<close>. \<open>renderChildren\<close> is
  \<open>children.filter(filterEmptyTextNodes).map(child => blockToAstro(child, options))\<close>,
  which renders the children from left to right.
\<close>

fun blockToAstro :: "helpers \<Rightarrow> options \<Rightarrow> node \<Rightarrow> gen_state \<Rightarrow> string \<times> gen_state"
  and renderChildren :: "helpers \<Rightarrow> options \<Rightarrow> node list \<Rightarrow> gen_state \<Rightarrow> string list \<times> gen_state"
where
  "blockToAstro H opts (Node nm ps bs cs m) st =
     (let n = Node nm ps bs cs m in
      case textProperty n of
        Some t \<Rightarrow> (t, st)
      | None \<Rightarrow>
      (case truthyCode n ''_text'' of
        Some c \<Rightarrow>
          (case processBinding H c Template st of (processedCode, st') \<Rightarrow>
             (''{'' @ processedCode @ ''}'', st'))
      | None \<Rightarrow>
      if nm = ''Fragment'' then
        (case renderChildren H opts cs st of (rendered, st') \<Rightarrow>
           (str_join [newline] rendered, st'))
      else if checkIsForNode H n then
        (let forArgs = getForArguments H n;
             itemName = (case forArgs of [] \<Rightarrow> ''undefined'' | a # _ \<Rightarrow> a);
             indexName = (case forArgs of _ # i # _ \<Rightarrow> i | _ \<Rightarrow> [])
         in case processBinding H (codeOrEmpty n ''each'') Template st of (eachCode, st1) \<Rightarrow>
            case renderChildren H opts cs st1 of (rendered, st2) \<Rightarrow>
              (''{'' @ eachCode @ ''.map(('' @ itemName
                 @ (if indexName \<noteq> [] then '', '' @ indexName else [])
                 @ '') => ('' @ [newline] @ ''      '' @ str_join [newline] rendered
                 @ [newline] @ ''    ))}'', st2))
      else if nm = ''Show'' then
        (case processBinding H (codeOrEmpty n ''when'') Template st of (whenCode, st1) \<Rightarrow>
         case renderChildren H opts cs st1 of (rendered, st2) \<Rightarrow>
         case (case m of
                 Some e \<Rightarrow> blockToAstro H opts e st2
               | None \<Rightarrow> (''null'', st2)) of (elseContent, st3) \<Rightarrow>
           (''{'' @ whenCode @ '' ? ('' @ [newline] @ ''      '' @ str_join [newline] rendered
              @ [newline] @ ''    ) : ('' @ elseContent @ '')}'', st3))
      else
        (case renderOpenTag H opts n st of (elementString, st1) \<Rightarrow>
           if nm \<in> SELF_CLOSING_HTML_TAGS H then (elementString @ '' />'', st1)
           else
             (case (case truthyCode n ''innerHTML'' of
                      Some c \<Rightarrow>
                        (case processBinding H c Template st1 of (htmlCode, st2) \<Rightarrow>
                           (''{'' @ htmlCode @ ''}'', st2))
                    | None \<Rightarrow>
                        if cs \<noteq> [] then
                          (case renderChildren H opts cs st1 of (rendered, st2) \<Rightarrow>
                             (str_join [newline] rendered, st2))
                        else ([], st1)) of (inner, st3) \<Rightarrow>
                (elementString @ ''>'' @ inner @ ''</'' @ nm @ ''>'', st3)))))"
| "renderChildren H opts [] st = ([], st)"
| "renderChildren H opts (c # cs) st =
     (if filterEmptyTextNodes H c
      then (case blockToAstro H opts c st of (s, st1) \<Rightarrow>
            case renderChildren H opts cs st1 of (ss, st2) \<Rightarrow> (s # ss, st2))
      else renderChildren H opts cs st)"

section \<open>The component assembler\<close>

text \<open>
  \<open>componentToAstro\<close> is handed a reference to the caller's component and works on a
  clone of it. Objects therefore live in a store: a component object, with the nodes it
  owns, is the content of one address, and the addresses below \<open>limit\<close> are the
  allocated ones. A collaborator that may write to the object it is given takes the
  address and the store; one that only reads takes the object's value.
\<close>

type_synonym addr = nat

record store =
  objects :: "addr \<Rightarrow> component"
  limit :: addr

text \<open>
  The collaborators of the assembler that are imported from modules outside the
  generator. \<open>evalFunction\<close> stands for \<open>new Function(body)()\<close> followed by
  \<open>Object.entries\<close>, with the values as the template literal prints them.
\<close>

record collaborators =
  fastClone :: "addr \<Rightarrow> store \<Rightarrow> addr \<times> store"
  initializeOptions :: "addr \<Rightarrow> options \<Rightarrow> store \<Rightarrow> options \<times> store"
  runPreJsonPlugins :: "plugin list \<Rightarrow> addr \<Rightarrow> store \<Rightarrow> addr \<times> store"
  runPostJsonPlugins :: "plugin list \<Rightarrow> addr \<Rightarrow> store \<Rightarrow> addr \<times> store"
  runPreCodePlugins :: "plugin list \<Rightarrow> addr \<Rightarrow> string \<Rightarrow> store \<Rightarrow> string \<times> store"
  runPostCodePlugins :: "plugin list \<Rightarrow> addr \<Rightarrow> string \<Rightarrow> store \<Rightarrow> string \<times> store"
  stripMetaProperties :: "addr \<Rightarrow> store \<Rightarrow> store"
  collectCss :: "addr \<Rightarrow> string \<Rightarrow> store \<Rightarrow> string \<times> store"
  renderPreComponent :: "bool option \<Rightarrow> component \<Rightarrow> string"
  hasProps :: "component \<Rightarrow> bool"
  hashJson :: "component \<Rightarrow> string"
  evalFunction :: "string \<Rightarrow> error + (string \<times> string) list"

subsection \<open>Style objects\<close>

text \<open>
  \<open>cssCode.replace(/^\s*[\(\{]\s*|\s*[\)\}]\s*$/g, '')\<close>: the first alternative can
  match at the start only and removes an opening bracket with the white space around it;
  the second removes, behind that, a closing bracket with the white space around it when
  nothing else follows.
\<close>

definition stripOpen :: "string \<Rightarrow> string" where
  "stripOpen s =
     (case dropWhile isWhitespace s of
        [] \<Rightarrow> s
      | b # rest \<Rightarrow> if b = CHR ''('' \<or> b = CHR ''{'' then dropWhile isWhitespace rest else s)"

definition stripClose :: "string \<Rightarrow> string" where
  "stripClose s =
     (case dropWhile isWhitespace (rev s) of
        [] \<Rightarrow> s
      | b # rest \<Rightarrow> if b = CHR '')'' \<or> b = CHR ''}'' then rev (dropWhile isWhitespace rest) else s)"

definition cssLine :: "helpers \<Rightarrow> string \<times> string \<Rightarrow> string" where
  "cssLine H entry =
     (case entry of (property, v) \<Rightarrow>
        ''  '' @ kebabCase H property @ '': '' @ v @ '';'' @ [newline])"

definition cssObjectToString ::
  "helpers \<Rightarrow> collaborators \<Rightarrow> string \<Rightarrow> gen_state \<Rightarrow> string \<times> gen_state" where
  "cssObjectToString H C cssCode st =
     (let cleaned = stripClose (stripOpen cssCode)
      in case evalFunction C (''return {'' @ cleaned @ ''}'') of
           Inr cssObj \<Rightarrow> (concat (map (cssLine H) cssObj), st)
         | Inl err \<Rightarrow>
             (''  /* Generated from: '' @ cssCode @ '' */'' @ [newline],
              st\<lparr>console := console st @
                [[Text ''Could not parse CSS-in-JS object:'', Text cssCode]]\<rparr>))"

subsection \<open>The frontmatter\<close>

definition propLine :: "string \<times> prop_def option \<Rightarrow> string" where
  "propLine entry =
     (case entry of (propName, propDef) \<Rightarrow>
        let propType =
              (case propDef of
                 Some d \<Rightarrow> (case propertyType d of
                              Some t \<Rightarrow> if t \<noteq> [] then t else ''any''
                            | None \<Rightarrow> ''any'')
               | None \<Rightarrow> ''any'');
            opt =
              (case propDef of
                 Some d \<Rightarrow> if optional d \<noteq> Some False then ''?'' else []
               | None \<Rightarrow> ''?'')
        in ''  '' @ propName @ opt @ '': '' @ propType @ '';'' @ [newline])"

definition propsDeclaration :: "options \<Rightarrow> component \<Rightarrow> bool \<Rightarrow> string" where
  "propsDeclaration opts json componentHasProps =
     (if typescript opts = Some True \<and> componentHasProps then
        (let propsType =
               (case propsTypeRef json of
                  Some t \<Rightarrow> if t \<noteq> [] then t else ''Props''
                | None \<Rightarrow> ''Props'')
         in ''interface '' @ propsType @ '' {'' @ [newline]
            @ (if props json \<noteq> [] then concat (map propLine (props json))
               else ''  [key: string]: any;'' @ [newline])
            @ ''}'' @ [newline, newline]
            @ ''const props = Astro.props as '' @ propsType @ '';'' @ [newline])
      else if componentHasProps then ''const props = Astro.props;'' @ [newline]
      else [])"

text \<open>
  The test \<open>/^\s*\([^)]*\)\s*=>/i\<close> on a state entry's code, and the whole of
  \<open>isFunction\<close>.
\<close>

definition arrowHead :: "string \<Rightarrow> bool" where
  "arrowHead src =
     (case dropWhile isWhitespace src of
        [] \<Rightarrow> False
      | x # r \<Rightarrow>
          x = CHR ''(''
          \<and> (case dropWhile (\<lambda>c. c \<noteq> CHR '')'') r of
                [] \<Rightarrow> False
              | y # r2 \<Rightarrow> startsWith (dropWhile isWhitespace r2) ''=>''))"

definition isFunction :: "string \<Rightarrow> bool" where
  "isFunction src = (str_includes src ''function'' \<or> str_includes src ''=>'' \<or> arrowHead src)"

definition stateLine ::
  "helpers \<Rightarrow> string \<times> state_value option \<Rightarrow> string \<times> gen_state \<Rightarrow> string \<times> gen_state" where
  "stateLine H entry acc =
     (case entry of (key, stateItem) \<Rightarrow>
      case acc of (frontmatter, st) \<Rightarrow>
      case stateItem of
        None \<Rightarrow> acc
      | Some v \<Rightarrow>
          if state_code v = [] then acc
          else (case processBinding H (state_code v) Frontmatter st of (processedCode, st') \<Rightarrow>
                  (frontmatter @ (if isFunction (state_code v) then ''const '' else ''let '')
                     @ key @ '' = '' @ processedCode @ '';'' @ [newline], st')))"

definition refLine :: "helpers \<Rightarrow> string \<Rightarrow> string" where
  "refLine H r = ''let '' @ camelCase H r @ '';'' @ [newline]"

definition buildFrontmatter ::
  "helpers \<Rightarrow> collaborators \<Rightarrow> options \<Rightarrow> component \<Rightarrow> bool \<Rightarrow> bool \<Rightarrow> string list
     \<Rightarrow> gen_state \<Rightarrow> string \<times> gen_state" where
  "buildFrontmatter H C opts json hasState componentHasProps refs st =
     (let imports = renderPreComponent C (explicitImportFileExtension opts) json;
          f1 = (if trim imports \<noteq> [] then imports @ [newline, newline] else []);
          f2 = f1 @ propsDeclaration opts json componentHasProps
      in case (if hasState
               then fold (stateLine H) (state json)
                      (f2 @ [newline] @ ''// Component state'' @ [newline], st)
               else (f2, st)) of (f3, st1) \<Rightarrow>
         let f4 = (if length refs > 0
                   then f3 @ [newline] @ ''// Component refs'' @ [newline]
                          @ concat (map (refLine H) refs)
                   else f3)
         in case onInit (hooks json) of
              Some h \<Rightarrow>
                if hook_code h \<noteq> [] then
                  (case processBinding H (hook_code h) Frontmatter st1 of (initCode, st2) \<Rightarrow>
                     (f4 @ [newline] @ ''// Component initialization'' @ [newline]
                        @ initCode @ [newline], st2))
                else (f4, st1)
            | None \<Rightarrow> (f4, st1))"

subsection \<open>The client script and the styles\<close>

definition hookLine :: "helpers \<Rightarrow> base_hook \<Rightarrow> string \<times> gen_state \<Rightarrow> string \<times> gen_state" where
  "hookLine H h acc =
     (case acc of (clientScript, st) \<Rightarrow>
      case processBinding H (hook_code h) Template st of (processed, st') \<Rightarrow>
        (clientScript @ ''  '' @ processed @ '';'' @ [newline], st'))"

definition buildClientScript ::
  "helpers \<Rightarrow> hydration_analysis \<Rightarrow> component \<Rightarrow> gen_state \<Rightarrow> string \<times> gen_state" where
  "buildClientScript H hydrationAnalysis json st =
     (if needsHydration hydrationAnalysis then
        (case (if length (onMount (hooks json)) > 0
               then fold (hookLine H) (onMount (hooks json))
                      ([newline] @ ''<script>'' @ [newline] @ ''  // Mount hooks'' @ [newline], st)
               else ([newline] @ ''<script>'' @ [newline], st)) of (c1, st1) \<Rightarrow>
         case (case onUpdate (hooks json) of
                 Some upd \<Rightarrow> fold (hookLine H) upd (c1 @ ''  // Update hooks'' @ [newline], st1)
               | None \<Rightarrow> (c1, st1)) of (c2, st2) \<Rightarrow>
           (c2 @ ''</script>'', st2))
      else ([], st))"

definition styleRule ::
  "helpers \<Rightarrow> collaborators \<Rightarrow> string \<times> string \<Rightarrow> string \<times> gen_state \<Rightarrow> string \<times> gen_state" where
  "styleRule H C entry acc =
     (case entry of (className, cssCode) \<Rightarrow>
      case acc of (styles, st) \<Rightarrow>
      case cssObjectToString H C cssCode st of (cssString, st') \<Rightarrow>
        if trim cssString \<noteq> []
        then (styles @ ''.'' @ className @ '' {'' @ [newline] @ cssString @ ''}'' @ [newline, newline], st')
        else (styles, st'))"

definition buildStyles ::
  "helpers \<Rightarrow> collaborators \<Rightarrow> string \<Rightarrow> gen_state \<Rightarrow> string \<times> gen_state" where
  "buildStyles H C css st =
     (let s1 = (if trim css \<noteq> [] then css else [])
      in case (case cssInJs st of
                 Some m \<Rightarrow> fold (styleRule H C) m (s1, st)
               | None \<Rightarrow> (s1, st)) of (s2, st') \<Rightarrow>
           if trim s2 \<noteq> []
           then ([newline] @ ''<style>'' @ [newline] @ trim s2 @ [newline] @ ''</style>'', st')
           else (s2, st'))"

subsection \<open>Formatting\<close>

text \<open>
  \<open>output.replace(/>\s*</g, '>\n<')\<close>: a \<open>>\<close> followed by white space and a
  \<open><\<close> is replaced, and the scan goes on behind the \<open><\<close>.
\<close>

function formatTags :: "string \<Rightarrow> string" where
  "formatTags [] = []"
| "formatTags (x # xs) =
     (if x = CHR ''>'' \<and> dropWhile isWhitespace xs \<noteq> [] \<and> hd (dropWhile isWhitespace xs) = CHR ''<''
      then ''>'' @ [newline] @ ''<'' @ formatTags (tl (dropWhile isWhitespace xs))
      else x # formatTags xs)"
  by pat_completeness auto
termination
proof (relation "measure length")
  show "wf (measure length)"
    by simp
next
  fix x :: char and xs :: string
  have "length (tl (dropWhile isWhitespace xs)) \<le> length (dropWhile isWhitespace xs)"
    by simp
  also have "\<dots> \<le> length xs"
    by (rule length_dropWhile_le)
  finally show "(tl (dropWhile isWhitespace xs), x # xs) \<in> measure length"
    by simp
next
  fix x :: char and xs :: string
  show "(xs, x # xs) \<in> measure length"
    by simp
qed

subsection \<open>The assembler\<close>

text \<open>
  The caller's options object, \<open>userOptions\<close>. The spread \<open>...userOptions\<close> copies
  every key the object has, also a key whose value is \<open>undefined\<close>; so each key is
  absent (\<open>None\<close>), or present with a value that may be undefined (\<open>Some None\<close>,
  \<open>Some (Some v)\<close>). Calling \<open>componentToAstro()\<close> without options gives the object
  with no key.
\<close>

record user_options =
  given_clientDirective :: "string option option"
  given_typescript :: "bool option option"
  given_plugins :: "plugin list option option"
  given_prettier :: "bool option option"
  given_explicitImportFileExtension :: "bool option option"

text \<open>
  The defaults of \<open>componentToAstro\<close> with the caller's options spread over them: a
  default stands only where the caller's object has no such key.
\<close>

definition withDefaults :: "user_options \<Rightarrow> options" where
  "withDefaults userOptions =
     \<lparr>clientDirective =
        (case given_clientDirective userOptions of
           None \<Rightarrow> Some CLIENT_DIRECTIVES_idle
         | Some d \<Rightarrow> d),
      typescript =
        (case given_typescript userOptions of None \<Rightarrow> Some True | Some t \<Rightarrow> t),
      plugins = (case given_plugins userOptions of None \<Rightarrow> None | Some ps \<Rightarrow> ps),
      prettier = (case given_prettier userOptions of None \<Rightarrow> None | Some b \<Rightarrow> b),
      explicitImportFileExtension =
        (case given_explicitImportFileExtension userOptions of None \<Rightarrow> None | Some b \<Rightarrow> b)\<rparr>"

text \<open>
  \<open>componentToAstro(userOptions)({ component })\<close>. The variable \<open>json\<close> is
  \<open>json0\<close> after the clone, \<open>json1\<close> after the pre-JSON plugins and \<open>json2\<close> after
  the post-JSON plugins. The result is the output, the store and the console.
\<close>

definition componentToAstro ::
  "helpers \<Rightarrow> collaborators \<Rightarrow> user_options \<Rightarrow> addr \<Rightarrow> store \<Rightarrow> console_arg list list
     \<Rightarrow> string \<times> store \<times> console_arg list list" where
  "componentToAstro H C userOptions component s0 con =
     (case fastClone C component s0 of (json0, s1) \<Rightarrow>
      case initializeOptions C component (withDefaults userOptions) s1 of (opts, s2) \<Rightarrow>
      case (case plugins opts of
              Some ps \<Rightarrow> runPreJsonPlugins C ps json0 s2
            | None \<Rightarrow> (json0, s2)) of (json1, s3) \<Rightarrow>
      let hydrationAnalysis = analyzeHydrationNeeds H (objects s3 json1);
          hasState = (state (objects s3 json1) \<noteq> []);
          componentHasProps = hasProps C (objects s3 json1);
          refs = getRefs H (objects s3 json1)
      in
      case collectCss C json1 (hashJson C (objects s3 json1)) s3 of (css, s4) \<Rightarrow>
      case (case plugins opts of
              Some ps \<Rightarrow> runPostJsonPlugins C ps json1 s4
            | None \<Rightarrow> (json1, s4)) of (json2, s5) \<Rightarrow>
      let s6 = stripMetaProperties C json2 s5;
          json = objects s6 json2
      in
      case buildFrontmatter H C opts json hasState componentHasProps refs
             \<lparr>cssInJs = Some [], console = con\<rparr> of (frontmatter, st1) \<Rightarrow>
      case renderChildren H opts (componentChildren json) st1 of (rendered, st2) \<Rightarrow>
      case buildClientScript H hydrationAnalysis json st2 of (clientScript, st3) \<Rightarrow>
      case buildStyles H C css st3 of (styles, st4) \<Rightarrow>
      let output0 =
            (if trim frontmatter \<noteq> []
             then ''---'' @ [newline] @ trim frontmatter @ [newline] @ ''---'' @ [newline, newline]
             else [])
            @ str_join [newline] rendered @ clientScript @ styles
      in
      case (case plugins opts of
              Some ps \<Rightarrow> runPreCodePlugins C ps json2 output0 s6
            | None \<Rightarrow> (output0, s6)) of (output1, s7) \<Rightarrow>
      let output2 = (if prettier opts \<noteq> Some False then formatTags output1 else output1)
      in
      case (case plugins opts of
              Some ps \<Rightarrow> runPostCodePlugins C ps json2 output2 s7
            | None \<Rightarrow> (output2, s7)) of (output3, s8) \<Rightarrow>
        (output3, s8, console st4))"

subsection \<open>What the collaborators may write\<close>

text \<open>
  \<open>unchanged s s'\<close>: every object allocated in \<open>s\<close> is the same in \<open>s'\<close>.
  \<open>mutatesOnly a s s'\<close>: the same, but for the object at \<open>a\<close>.
\<close>

definition unchanged :: "store \<Rightarrow> store \<Rightarrow> bool" where
  "unchanged s s' = (limit s \<le> limit s' \<and> (\<forall>b < limit s. objects s' b = objects s b))"

definition mutatesOnly :: "addr \<Rightarrow> store \<Rightarrow> store \<Rightarrow> bool" where
  "mutatesOnly a s s' =
     (limit s \<le> limit s' \<and> (\<forall>b < limit s. b \<noteq> a \<longrightarrow> objects s' b = objects s b))"

text \<open>
  The contracts the assembler relies on: the cloner returns a new object that holds a
  copy and leaves the existing ones alone; \<open>initializeOptions\<close> only reads; a plugin
  stage, the metadata stripper and the CSS collector write at most to the object they are
  given (and to objects they create), and a JSON plugin stage returns the object it was
  given or a new one.
\<close>

definition respectsOwnership :: "collaborators \<Rightarrow> bool" where
  "respectsOwnership C =
     ((\<forall>a s. a < limit s \<longrightarrow>
         (case fastClone C a s of (r, s') \<Rightarrow>
            unchanged s s' \<and> limit s \<le> r \<and> r < limit s' \<and> objects s' r = objects s a))
      \<and> (\<forall>a d s. a < limit s \<longrightarrow> unchanged s (snd (initializeOptions C a d s)))
      \<and> (\<forall>ps a s. a < limit s \<longrightarrow>
           (case runPreJsonPlugins C ps a s of (r, s') \<Rightarrow>
              mutatesOnly a s s' \<and> (r = a \<or> limit s \<le> r) \<and> r < limit s'))
      \<and> (\<forall>ps a s. a < limit s \<longrightarrow>
           (case runPostJsonPlugins C ps a s of (r, s') \<Rightarrow>
              mutatesOnly a s s' \<and> (r = a \<or> limit s \<le> r) \<and> r < limit s'))
      \<and> (\<forall>ps a c s. a < limit s \<longrightarrow> mutatesOnly a s (snd (runPreCodePlugins C ps a c s)))
      \<and> (\<forall>ps a c s. a < limit s \<longrightarrow> mutatesOnly a s (snd (runPostCodePlugins C ps a c s)))
      \<and> (\<forall>a s. a < limit s \<longrightarrow> mutatesOnly a s (stripMetaProperties C a s))
      \<and> (\<forall>a p s. a < limit s \<longrightarrow> mutatesOnly a s (snd (collectCss C a p s))))"

section \<open>References the pattern finds\<close>


section \<open>References, as the specification describes them\<close>










section \<open>Texts on which the pattern and the specification agree\<close>





section \<open>The pattern, token by token\<close>




section \<open>Predicates of the properties\<close>

text \<open>
  A node has an interactive binding when one of its binding keys, or one of a node below
  it, is in the allow-list \<open>INTERACTIVE_EVENTS\<close>.
\<close>

fun hasInteractiveBinding :: "node \<Rightarrow> bool" where
  "hasInteractiveBinding (Node nm ps bs cs m) =
     ((\<exists>key \<in> set (map fst bs). key \<in> set INTERACTIVE_EVENTS)
      \<or> (\<exists>c \<in> set cs. hasInteractiveBinding c))"

text \<open>
  A node is rendered as a regular element when none of the earlier cases of
  \<open>blockToAstro\<close> takes it: it has no literal text, no dynamic text, and is not a
  fragment, a \<open>For\<close> node or a \<open>Show\<close> node.
\<close>

definition plainElement :: "helpers \<Rightarrow> node \<Rightarrow> bool" where
  "plainElement H n =
     (textProperty n = None \<and> truthyCode n ''_text'' = None \<and> name n \<noteq> ''Fragment''
      \<and> \<not> checkIsForNode H n \<and> name n \<noteq> ''Show'')"

text \<open>
  The class sources of a node, as \<open>collectClassString\<close> counts them: a \<open>class\<close> or
  \<open>className\<close> property that is not blank, and a \<open>class\<close>, \<open>className\<close> or
  \<open>css\<close> binding whose code is not blank.
\<close>

definition hasStaticClass :: "node \<Rightarrow> string \<Rightarrow> bool" where
  "hasStaticClass n key =
     (case map_of (properties n) key of Some v \<Rightarrow> trim v \<noteq> [] | None \<Rightarrow> False)"

definition hasBindingCode :: "node \<Rightarrow> string \<Rightarrow> bool" where
  "hasBindingCode n key =
     (case binding_at n key of Some b \<Rightarrow> trim (code b) \<noteq> [] | None \<Rightarrow> False)"

definition classSources :: "node \<Rightarrow> nat" where
  "classSources n =
     of_bool (hasStaticClass n ''class'') + of_bool (hasStaticClass n ''className'')
     + of_bool (hasBindingCode n ''class'') + of_bool (hasBindingCode n ''className'')
     + of_bool (hasBindingCode n ''css'')"

section \<open>Sample inputs\<close>

text \<open>
  An instance of the helpers for the examples: the Babel transform returns the expression
  it is given, an event is a key that starts with \<open>on\<close>, and the void elements
  \<open>br\<close>, \<open>img\<close> and \<open>input\<close> are self-closing.
\<close>

definition sampleHelpers :: helpers where
  "sampleHelpers =
     \<lparr>babelTransformExpression = (\<lambda>s ctx. Inr s),
      checkIsEvent = (\<lambda>key. startsWith key ''on''),
      filterEmptyTextNodes = (\<lambda>n. True),
      checkIsForNode = (\<lambda>n. name n = ''For''),
      getForArguments = (\<lambda>n. [''item'']),
      getRefs = (\<lambda>json. []),
      hash = (\<lambda>s. ''0''),
      kebabCase = (\<lambda>s. s),
      camelCase = (\<lambda>s. s),
      SELF_CLOSING_HTML_TAGS = {''br'', ''img'', ''input''}\<rparr>"

definition failingHelpers :: helpers where
  "failingHelpers =
     sampleHelpers\<lparr>babelTransformExpression := (\<lambda>s ctx. Inl (Error ''SyntaxError''))\<rparr>"

definition emptyState :: gen_state where
  "emptyState = \<lparr>cssInJs = None, console = []\<rparr>"

definition defaultOptions :: options where
  "defaultOptions =
     \<lparr>clientDirective = Some CLIENT_DIRECTIVES_idle, typescript = Some True, plugins = None,
      prettier = None, explicitImportFileExtension = None\<rparr>"

definition handler :: "string \<Rightarrow> binding" where
  "handler c = \<lparr>code = c, type = Single, arguments = None, async = False\<rparr>"

definition counterButton :: node where
  "counterButton =
     Node ''button'' [(''class'', ''btn'')] [(''onClick'', Some (handler ''state.count++''))]
       [Node ''div'' [(''_text'', ''Add'')] [] [] None] None"

definition mountedComponent :: component where
  "mountedComponent =
     \<lparr>state = [], props = [],
      hooks = \<lparr>onInit = None, onMount = [\<lparr>hook_code = ''start()'', deps = None\<rparr>],
               onUpdate = None\<rparr>,
      componentChildren = [counterButton], propsTypeRef = None\<rparr>"

definition staticComponent :: component where
  "staticComponent =
     \<lparr>state = [], props = [],
      hooks = \<lparr>onInit = None, onMount = [], onUpdate = None\<rparr>,
      componentChildren =
        [Node ''div'' [(''class'', ''box'')] [(''title'', Some (handler ''props.title''))]
           [Node ''div'' [(''_text'', ''Hello'')] [] [] None] None],
      propsTypeRef = None\<rparr>"

definition styledBox :: node where
  "styledBox =
     Node ''div'' [(''class'', ''box'')] [(''css'', Some (handler ''{ color: red }''))] [] None"

definition toggleBox :: node where
  "toggleBox =
     Node ''div'' [(''class'', ''box'')] [(''class'', Some (handler ''state.open''))] [] None"

definition lineBreak :: node where
  "lineBreak =
     Node ''br'' [(''class'', ''gap'')] [] [Node ''div'' [(''_text'', ''ignored'')] [] [] None] None"

text \<open>
  \<open>untouched c s0 s j\<close>: the object at \<open>c\<close>, allocated in \<open>s0\<close>, is in \<open>s\<close> what
  it was in \<open>s0\<close>, and \<open>j\<close> is another allocated object of \<open>s\<close>.
\<close>

definition untouched :: "addr \<Rightarrow> store \<Rightarrow> store \<Rightarrow> addr \<Rightarrow> bool" where
  "untouched c s0 s j =
     (c < limit s0 \<and> limit s0 \<le> limit s \<and> objects s c = objects s0 c \<and> j \<noteq> c \<and> j < limit s)"

text \<open>
  Collaborators for the examples: the cloner copies the object to the next free address,
  the pre-JSON plugin stage adds a state entry for each plugin to the object it is
  given, the metadata stripper removes the name of the props type, and the others change
  nothing.
\<close>

definition sampleCollaborators :: collaborators where
  "sampleCollaborators =
     \<lparr>fastClone =
        (\<lambda>a s. (limit s, s\<lparr>objects := (objects s)(limit s := objects s a),
                              limit := Suc (limit s)\<rparr>)),
      initializeOptions = (\<lambda>a d s. (d, s)),
      runPreJsonPlugins =
        (\<lambda>ps a s. (a, s\<lparr>objects := (objects s)
                        (a := (objects s a)\<lparr>state := state (objects s a) @ map (\<lambda>p. (p, None)) ps\<rparr>)\<rparr>)),
      runPostJsonPlugins = (\<lambda>ps a s. (a, s)),
      runPreCodePlugins = (\<lambda>ps a c s. (c, s)),
      runPostCodePlugins = (\<lambda>ps a c s. (c, s)),
      stripMetaProperties =
        (\<lambda>a s. s\<lparr>objects := (objects s)(a := (objects s a)\<lparr>propsTypeRef := None\<rparr>)\<rparr>),
      collectCss = (\<lambda>a p s. ([], s)),
      renderPreComponent = (\<lambda>e json. []),
      hasProps = (\<lambda>json. props json \<noteq> []),
      hashJson = (\<lambda>json. ''0''),
      evalFunction = (\<lambda>body. Inl (Error ''SyntaxError''))\<rparr>"

definition callerStore :: store where
  "callerStore = \<lparr>objects = (\<lambda>a. mountedComponent), limit = 1\<rparr>"

definition pluginOptions :: user_options where
  "pluginOptions =
     \<lparr>given_clientDirective = None, given_typescript = None, given_plugins = Some (Some [''marker'']),
      given_prettier = None, given_explicitImportFileExtension = None\<rparr>"

section \<open>Facts about strings\<close>

lemma startsWith_append: "startsWith (p @ s) p"
  by (induction p) auto

lemma str_includes_append: "str_includes (a @ p @ b) p"
proof (induction a)
  case Nil
  show ?case
  proof (cases "p @ b")
    case Nil
    then show ?thesis by simp
  next
    case (Cons x xs)
    have "startsWith (p @ b) p" by (rule startsWith_append)
    with Cons show ?thesis by simp
  qed
next
  case (Cons x a)
  then show ?case by simp
qed

section \<open>The hydration analyzer\<close>

text \<open>
  The tree walk only ever appends to the reasons, and leaves flag and reasons as they
  are below a node without interactive binding.
\<close>

lemma checkNode_keeps_reasons:
  "\<exists>more. snd (checkNodeForInteractivity n acc) = snd acc @ more"
proof (induction n acc rule: checkNodeForInteractivity.induct)
  case (1 nm ps bs cs m h rs)
  show ?case
  proof (cases "find (\<lambda>key. key \<in> set INTERACTIVE_EVENTS) (map fst bs)")
    case (Some key)
    then show ?thesis by simp
  next
    case None
    have "\<exists>more. snd (fold checkNodeForInteractivity xs acc) = snd acc @ more"
      if "set xs \<subseteq> set cs" for xs acc
      using that
    proof (induction xs arbitrary: acc)
      case Nil
      then show ?case by simp
    next
      case (Cons x xs)
      from Cons.prems have x: "x \<in> set cs" and xs: "set xs \<subseteq> set cs" by auto
      obtain m1 where m1: "snd (checkNodeForInteractivity x acc) = snd acc @ m1"
        using "1.IH"[OF None x, of acc] by blast
      obtain m2 where m2: "snd (fold checkNodeForInteractivity xs (checkNodeForInteractivity x acc))
          = snd (checkNodeForInteractivity x acc) @ m2"
        using Cons.IH[OF xs] by blast
      show ?case using m1 m2 by simp
    qed
    from this[of cs "(h, rs)"] None show ?thesis by simp
  qed
qed

lemma fold_checkNode_keeps_reasons:
  "\<exists>more. snd (fold checkNodeForInteractivity cs acc) = snd acc @ more"
proof (induction cs arbitrary: acc)
  case Nil
  then show ?case by simp
next
  case (Cons c cs)
  obtain m1 where m1: "snd (checkNodeForInteractivity c acc) = snd acc @ m1"
    using checkNode_keeps_reasons by blast
  obtain m2 where m2: "snd (fold checkNodeForInteractivity cs (checkNodeForInteractivity c acc))
      = snd (checkNodeForInteractivity c acc) @ m2"
    using Cons.IH by blast
  show ?case using m1 m2 by simp
qed

lemma checkNode_no_interactive:
  "\<not> hasInteractiveBinding n \<Longrightarrow> checkNodeForInteractivity n acc = acc"
proof (induction n acc rule: checkNodeForInteractivity.induct)
  case (1 nm ps bs cs m h rs)
  from "1.prems" have nokey: "find (\<lambda>key. key \<in> set INTERACTIVE_EVENTS) (map fst bs) = None"
    by (auto simp: find_None_iff)
  from "1.prems" have kids: "\<forall>c \<in> set cs. \<not> hasInteractiveBinding c"
    by simp
  have "fold checkNodeForInteractivity xs acc = acc" if "set xs \<subseteq> set cs" for xs acc
    using that
  proof (induction xs arbitrary: acc)
    case Nil
    then show ?case by simp
  next
    case (Cons x xs)
    from Cons.prems have x: "x \<in> set cs" and xs: "set xs \<subseteq> set cs" by auto
    have "checkNodeForInteractivity x acc = acc"
      using "1.IH"[OF nokey x] kids x by blast
    with Cons.IH[OF xs] show ?case by simp
  qed
  from this[of cs "(h, rs)"] nokey show ?case by simp
qed

lemma fold_checkNode_no_interactive:
  "\<forall>c \<in> set cs. \<not> hasInteractiveBinding c \<Longrightarrow> fold checkNodeForInteractivity cs acc = acc"
  by (induction cs arbitrary: acc) (simp_all add: checkNode_no_interactive)

text \<open>
  C1. A component with at least one \<open>onMount\<close> hook is given the eager directive
  \<open>client:load\<close>, whatever the helper \<open>getRefs\<close> finds and whatever bindings the tree
  carries: the reason recorded for the hooks contains the word \<open>onMount\<close>, the tree walk
  keeps it, and the last rule of the analyzer looks for that word.
\<close>

theorem onMount_forces_load:
  assumes "onMount (hooks json) \<noteq> []"
  shows "suggestedDirective (analyzeHydrationNeeds H json) = CLIENT_DIRECTIVES_load"
proof -
  define refs where "refs = getRefs H json"
  define reasons1 where "reasons1 =
    (if length refs > 0
     then [''Component uses '' @ string_of_nat (length refs) @ '' ref(s): '' @ str_join '', '' refs]
     else [])"
  define mountReason where "mountReason =
    ''Component has '' @ string_of_nat (length (onMount (hooks json))) @ '' onMount hook(s)''"
  define reasons3 where "reasons3 =
    (case onUpdate (hooks json) of
       Some upd \<Rightarrow> reasons1 @ [mountReason] @ [''Component has ''
                           @ string_of_nat (length upd) @ '' onUpdate hook(s)'']
     | None \<Rightarrow> reasons1 @ [mountReason])"
  have inc: "str_includes mountReason ''onMount''"
    unfolding mountReason_def
    using str_includes_append[of "''Component has '' @ string_of_nat (length (onMount (hooks json))) @ '' ''" "''onMount''" "'' hook(s)''"]
    by simp
  have mem3: "mountReason \<in> set reasons3"
    by (simp add: reasons3_def split: option.split)
  have "\<exists>more. snd (fold checkNodeForInteractivity (componentChildren json) (False, reasons3)) = reasons3 @ more"
    using fold_checkNode_keeps_reasons[of "componentChildren json" "(False, reasons3)"] by simp
  then obtain more where more: "snd (fold checkNodeForInteractivity (componentChildren json) (False, reasons3)) = reasons3 @ more"
    by blast
  have ex: "list_ex (\<lambda>r. str_includes r ''onMount'') (reasons3 @ more)"
    using inc mem3 by (auto simp: list_ex_iff)
  show ?thesis
    using assms ex more
    by (auto simp: analyzeHydrationNeeds_def Let_def reasons3_def reasons1_def mountReason_def refs_def
        split: prod.splits option.splits if_splits)
qed

theorem onMount_forces_load_witness:
  "onMount (hooks mountedComponent) \<noteq> []
   \<and> hasInteractiveBinding counterButton
   \<and> suggestedDirective (analyzeHydrationNeeds sampleHelpers mountedComponent) = ''client:load''"
  using onMount_forces_load [of mountedComponent sampleHelpers]
  by (simp add: mountedComponent_def counterButton_def INTERACTIVE_EVENTS_def CLIENT_DIRECTIVES_load_def)

text \<open>
  C3. A component for which \<open>getRefs\<close> finds no ref, with no \<open>onMount\<close> hook, no
  \<open>onUpdate\<close> declaration and no binding key of the allow-list in any node reached from
  its children is reported as not needing hydration.
\<close>

theorem no_triggers_no_hydration:
  assumes "getRefs H json = []"
    and "onMount (hooks json) = []"
    and "onUpdate (hooks json) = None"
    and "\<forall>c \<in> set (componentChildren json). \<not> hasInteractiveBinding c"
  shows "\<not> needsHydration (analyzeHydrationNeeds H json)"
  using assms
  by (simp add: analyzeHydrationNeeds_def Let_def fold_checkNode_no_interactive)

theorem no_triggers_no_hydration_witness:
  "getRefs sampleHelpers staticComponent = []
   \<and> onMount (hooks staticComponent) = []
   \<and> onUpdate (hooks staticComponent) = None
   \<and> list_all (\<lambda>c. \<not> hasInteractiveBinding c) (componentChildren staticComponent)
   \<and> \<not> needsHydration (analyzeHydrationNeeds sampleHelpers staticComponent)"
proof -
  have h: "\<forall>c \<in> set (componentChildren staticComponent). \<not> hasInteractiveBinding c"
    by (simp add: staticComponent_def INTERACTIVE_EVENTS_def)
  have r: "getRefs sampleHelpers staticComponent = []"
    by (simp add: sampleHelpers_def)
  have m: "onMount (hooks staticComponent) = []" and u: "onUpdate (hooks staticComponent) = None"
    by (simp_all add: staticComponent_def)
  from no_triggers_no_hydration [OF r m u h] r m u h show ?thesis
    by (simp add: list_all_iff)
qed

section \<open>The binding processor\<close>

text \<open>
  C10. For a code string that is empty or all white space, \<open>processBinding\<close> returns the
  empty string, in either context, and writes nothing.
\<close>

theorem processBinding_blank:
  "trim src = [] \<Longrightarrow> processBinding H src ctx st = ([], st)"
  by (simp add: processBinding_def)

theorem processBinding_blank_witness:
  "trim ''   '' = [] \<and> processBinding sampleHelpers ''   '' Frontmatter emptyState = ([], emptyState)
   \<and> processBinding sampleHelpers ''   '' Template emptyState = ([], emptyState)"
proof -
  have t: "trim ''   '' = []"
    by (simp add: trim_def isWhitespace_def)
  from processBinding_blank [OF t] t show ?thesis
    by simp
qed

text \<open>
  C4. \<open>processBinding\<close> returns on every input, and all it writes is the console: the
  only operation of its body that can throw is the Babel transform, whose exception the
  \<open>catch\<close> block takes. When the transform throws (on code that is not blank) the
  result is the code as it was given, with one warning written to the console.
\<close>

theorem processBinding_fail_soft:
  "(\<exists>r w. processBinding H src ctx st = (r, st\<lparr>console := console st @ w\<rparr>))
   \<and> (trim src \<noteq> [] \<and> babelTransformExpression H (substituteRefs ctx src) ctx = Inl err
      \<longrightarrow> processBinding H src ctx st =
            (src, st\<lparr>console := console st @
               [[Text (''Astro: Failed to process binding '' @ [dquote] @ src @ [dquote] @ '':''),
                 Thrown err]]\<rparr>))"
proof (intro conjI impI)
  show "\<exists>r w. processBinding H src ctx st = (r, st\<lparr>console := console st @ w\<rparr>)"
  proof (cases "trim src = []")
    case True
    then have "processBinding H src ctx st = ([], st\<lparr>console := console st @ []\<rparr>)"
      by (simp add: processBinding_def)
    then show ?thesis by blast
  next
    case False
    show ?thesis
    proof (cases "processBinding_try H src ctx")
      case (Inl e)
      with False have "processBinding H src ctx st =
          (src, st\<lparr>console := console st @
             [[Text (''Astro: Failed to process binding '' @ [dquote] @ src @ [dquote] @ '':''),
               Thrown e]]\<rparr>)"
        by (simp add: processBinding_def)
      then show ?thesis by blast
    next
      case (Inr p)
      with False have "processBinding H src ctx st = (p, st\<lparr>console := console st @ []\<rparr>)"
        by (simp add: processBinding_def)
      then show ?thesis by blast
    qed
  qed
next
  assume "trim src \<noteq> [] \<and> babelTransformExpression H (substituteRefs ctx src) ctx = Inl err"
  then show "processBinding H src ctx st =
            (src, st\<lparr>console := console st @
               [[Text (''Astro: Failed to process binding '' @ [dquote] @ src @ [dquote] @ '':''),
                 Thrown err]]\<rparr>)"
    by (simp add: processBinding_def processBinding_try_def)
qed

theorem processBinding_fail_soft_witness:
  "trim ''state.count +'' \<noteq> []
   \<and> babelTransformExpression failingHelpers (substituteRefs Template ''state.count +'') Template
       = Inl (Error ''SyntaxError'')
   \<and> fst (processBinding failingHelpers ''state.count +'' Template emptyState) = ''state.count +''
   \<and> length (console (snd (processBinding failingHelpers ''state.count +'' Template emptyState))) = 1"
proof -
  have t: "trim ''state.count +'' \<noteq> []"
    by (simp add: trim_def isWhitespace_def)
  have b: "babelTransformExpression failingHelpers (substituteRefs Template ''state.count +'') Template
       = Inl (Error ''SyntaxError'')"
    by (simp add: failingHelpers_def sampleHelpers_def)
  from processBinding_fail_soft [of failingHelpers "''state.count +''" Template emptyState
      "Error ''SyntaxError''"] t b
  show ?thesis
    by (simp add: emptyState_def)
qed

section \<open>The scanner and the references of the specification\<close>























section \<open>One pass of the binding processor\<close>





















section \<open>The class collector\<close>

lemma startsWith_quoted: "startsWith (quoted s) [dquote]"
  by (simp add: quoted_def)

lemma endsWith_quoted: "endsWith (quoted s) [dquote]"
  by (simp add: quoted_def endsWith_def)

lemma staticClass_cases:
  "staticClass n key = (if hasStaticClass n key then [quoted (trim (the (map_of (properties n) key)))] else [])"
  by (simp add: staticClass_def hasStaticClass_def split: option.splits)

lemma dynamicClass_cases:
  "fst (dynamicClass H n key st) =
     (if hasBindingCode n key
      then [''('' @ fst (processBinding H (code (the (binding_at n key))) Template st) @ '')'']
      else [])"
  by (simp add: dynamicClass_def hasBindingCode_def split: option.splits prod.splits)

lemma cssClass_cases:
  "fst (cssClass H n st) =
     (if hasBindingCode n ''css''
      then [quoted (kebabCase H (if name n = [] then ''element'' else name n) @ ''-''
              @ hash H (code (the (binding_at n ''css''))))]
      else [])"
  by (simp add: cssClass_def hasBindingCode_def Let_def split: option.splits)

lemma collectClasses_fst:
  "fst (collectClasses H n st) =
     staticClass n ''class'' @ staticClass n ''className''
     @ fst (dynamicClass H n ''class'' st)
     @ fst (dynamicClass H n ''className'' (snd (dynamicClass H n ''class'' st)))
     @ fst (cssClass H n (snd (dynamicClass H n ''className'' (snd (dynamicClass H n ''class'' st)))))"
  by (simp add: collectClasses_def split: prod.splits)

lemma collectClasses_length: "length (fst (collectClasses H n st)) = classSources n"
  by (simp add: collectClasses_fst staticClass_cases dynamicClass_cases cssClass_cases classSources_def)

lemma collectClassString_fst:
  "fst (collectClassString H n st) =
     (let classes = fst (collectClasses H n st) in
        if length classes = 0 then []
        else if length classes = 1 \<and> startsWith (hd classes) [dquote] \<and> endsWith (hd classes) [dquote]
        then ''class='' @ hd classes
        else ''class={['' @ str_join '', '' classes @ ''].filter(Boolean).join(' ')}'')"
  by (cases "collectClasses H n st") (simp add: collectClassString_def Let_def)

lemma single_dynamic_not_literal:
  assumes "classSources n = 1" and "hasBindingCode n ''class'' \<or> hasBindingCode n ''className''"
  shows "\<not> startsWith (hd (fst (collectClasses H n st))) [dquote]"
  using assms
  by (auto simp: collectClasses_fst staticClass_cases dynamicClass_cases cssClass_cases classSources_def
      dquote_def split: if_splits)

lemma processBinding_fst_state:
  "fst (processBinding H src ctx st) = fst (processBinding H src ctx st')"
  by (simp add: processBinding_def split: sum.splits)

text \<open>
  C6, as amended. When the only class source of a node is a \<open>class\<close> property that is
  not blank, the attribute is the direct form \<open>class="v"\<close>, where \<open>v\<close> is the
  property's value without the white space around it, and nothing is recorded. When the
  node has two or more class sources, or a \<open>class\<close> or \<open>className\<close> binding, the
  attribute is the expression that puts the entries in an array, filters it with
  \<open>Boolean\<close> and joins it with a space. The entries are, in this order: the \<open>class\<close>
  property and the \<open>className\<close> property, each trimmed and in double quotes; the code
  of the \<open>class\<close> binding and of the \<open>className\<close> binding, each as
  \<open>processBinding\<close> returns it for a template and in parentheses; and, in double
  quotes, the scoped name of the \<open>css\<close> binding, made of the node's name in kebab
  case (\<open>element\<close> for a node without name), a hyphen, and the hash of the binding's
  code. A source that is blank gives no entry.
\<close>

theorem collectClassString_forms:
  assumes "entries =
      (if hasStaticClass n ''class''
       then [[dquote] @ trim (the (map_of (properties n) ''class'')) @ [dquote]] else [])
      @ (if hasStaticClass n ''className''
         then [[dquote] @ trim (the (map_of (properties n) ''className'')) @ [dquote]] else [])
      @ (if hasBindingCode n ''class''
         then [''('' @ fst (processBinding H (code (the (binding_at n ''class''))) Template st) @ '')'']
         else [])
      @ (if hasBindingCode n ''className''
         then [''('' @ fst (processBinding H (code (the (binding_at n ''className''))) Template st) @ '')'']
         else [])
      @ (if hasBindingCode n ''css''
         then [[dquote] @ kebabCase H (if name n = [] then ''element'' else name n) @ ''-''
                 @ hash H (code (the (binding_at n ''css''))) @ [dquote]]
         else [])"
  shows "(classSources n = 1 \<and> hasStaticClass n ''class''
          \<longrightarrow> collectClassString H n st
                = (''class='' @ [dquote] @ trim (the (map_of (properties n) ''class'')) @ [dquote], st))
         \<and> (2 \<le> classSources n \<or> hasBindingCode n ''class'' \<or> hasBindingCode n ''className''
          \<longrightarrow> fst (collectClassString H n st)
                = ''class={['' @ str_join '', '' entries @ ''].filter(Boolean).join(' ')}'')"
proof (intro conjI impI)
  assume a: "classSources n = 1 \<and> hasStaticClass n ''class''"
  then have rest: "\<not> hasStaticClass n ''className''" "\<not> hasBindingCode n ''class''"
    "\<not> hasBindingCode n ''className''" "\<not> hasBindingCode n ''css''"
    by (auto simp: classSources_def split: if_splits)
  from rest have "collectClasses H n st = (staticClass n ''class'' @ staticClass n ''className'', st)"
    by (simp add: collectClasses_def dynamicClass_def cssClass_def hasBindingCode_def split: option.splits)
  with a rest(1) have "collectClasses H n st = ([quoted (trim (the (map_of (properties n) ''class'')))], st)"
    by (simp add: staticClass_cases)
  then show "collectClassString H n st
      = (''class='' @ [dquote] @ trim (the (map_of (properties n) ''class'')) @ [dquote], st)"
    by (simp add: collectClassString_def startsWith_quoted endsWith_quoted) (simp add: quoted_def)
next
  assume a: "2 \<le> classSources n \<or> hasBindingCode n ''class'' \<or> hasBindingCode n ''className''"
  have pos: "0 < classSources n"
    using a by (auto simp: classSources_def of_bool_def split: if_splits)
  then have ne: "fst (collectClasses H n st) \<noteq> []"
    using collectClasses_length[of H n st] by auto
  have ns: "\<not> (length (fst (collectClasses H n st)) = 1
            \<and> startsWith (hd (fst (collectClasses H n st))) [dquote]
            \<and> endsWith (hd (fst (collectClasses H n st))) [dquote])"
    using a single_dynamic_not_literal[of n H st] by (auto simp: collectClasses_length)
  have p: "fst (processBinding H (code (the (binding_at n ''className''))) Template
                  (snd (dynamicClass H n ''class'' st)))
           = fst (processBinding H (code (the (binding_at n ''className''))) Template st)"
    by (rule processBinding_fst_state)
  have e: "fst (collectClasses H n st) = entries"
    unfolding assms
    by (simp add: collectClasses_fst staticClass_cases dynamicClass_cases cssClass_cases p quoted_def)
  from ne ns have "fst (collectClassString H n st) =
          ''class={['' @ str_join '', '' (fst (collectClasses H n st)) @ ''].filter(Boolean).join(' ')}''"
    by (auto simp: collectClassString_fst Let_def)
  then show "fst (collectClassString H n st)
      = ''class={['' @ str_join '', '' entries @ ''].filter(Boolean).join(' ')}''"
    unfolding e .
qed

theorem collectClassString_forms_witness:
  "classSources counterButton = 1 \<and> hasStaticClass counterButton ''class''
   \<and> collectClassString sampleHelpers counterButton emptyState
       = (''class='' @ [dquote] @ ''btn'' @ [dquote], emptyState)
   \<and> hasBindingCode toggleBox ''class''
   \<and> fst (collectClassString sampleHelpers toggleBox emptyState)
       = ''class={['' @ [dquote] @ ''box'' @ [dquote] @ '', (open)].filter(Boolean).join(' ')}''"
proof -
  have c1: "classSources counterButton = 1"
    by code_simp
  have s1: "hasStaticClass counterButton ''class''"
    by code_simp
  have v1: "trim (the (map_of (properties counterButton) ''class'')) = ''btn''"
    by code_simp
  have b2: "hasBindingCode toggleBox ''class''"
    by code_simp
  have e2: "[[dquote] @ ''box'' @ [dquote], ''(open)''] =
      (if hasStaticClass toggleBox ''class''
       then [[dquote] @ trim (the (map_of (properties toggleBox) ''class'')) @ [dquote]] else [])
      @ (if hasStaticClass toggleBox ''className''
         then [[dquote] @ trim (the (map_of (properties toggleBox) ''className'')) @ [dquote]] else [])
      @ (if hasBindingCode toggleBox ''class''
         then [''('' @ fst (processBinding sampleHelpers (code (the (binding_at toggleBox ''class'')))
                             Template emptyState) @ '')'']
         else [])
      @ (if hasBindingCode toggleBox ''className''
         then [''('' @ fst (processBinding sampleHelpers (code (the (binding_at toggleBox ''className'')))
                             Template emptyState) @ '')'']
         else [])
      @ (if hasBindingCode toggleBox ''css''
         then [[dquote] @ kebabCase sampleHelpers (if name toggleBox = [] then ''element'' else name toggleBox)
                 @ ''-'' @ hash sampleHelpers (code (the (binding_at toggleBox ''css''))) @ [dquote]]
         else [])"
    by code_simp
  from collectClassString_forms [OF refl, of counterButton sampleHelpers emptyState] c1 s1 v1
  have d: "collectClassString sampleHelpers counterButton emptyState
       = (''class='' @ [dquote] @ ''btn'' @ [dquote], emptyState)"
    by simp
  from collectClassString_forms [OF e2] b2
  have x: "fst (collectClassString sampleHelpers toggleBox emptyState)
       = ''class={['' @ [dquote] @ ''box'' @ [dquote] @ '', (open)].filter(Boolean).join(' ')}''"
    by simp
  from c1 s1 b2 d x show ?thesis
    by blast
qed

text \<open>
  The claim as it stands fails on a \<open>class\<close> property with white space around its
  value, which is rendered without it, and on a blank one, which gives no attribute at
  all.
\<close>

theorem collectClassString_trims_counterexample:
  "collectClassString sampleHelpers (Node ''div'' [(''class'', '' btn '')] [] [] None) emptyState
     = (''class='' @ [dquote] @ ''btn'' @ [dquote], emptyState)
   \<and> fst (collectClassString sampleHelpers (Node ''div'' [(''class'', '' btn '')] [] [] None) emptyState)
       \<noteq> ''class='' @ [dquote] @ '' btn '' @ [dquote]
   \<and> collectClassString sampleHelpers (Node ''div'' [(''class'', ''  '')] [] [] None) emptyState
       = ([], emptyState)"
  by code_simp


section \<open>The node renderer\<close>

lemma interactive_not_reserved:
  "key \<in> set INTERACTIVE_EVENTS \<Longrightarrow>
     key \<noteq> ''class'' \<and> key \<noteq> ''className'' \<and> key \<noteq> ''css'' \<and> key \<noteq> ''_text'' \<and> key \<noteq> ''ref''"
  by (auto simp: INTERACTIVE_EVENTS_def)

lemma renderBinding_keeps_flag:
  "fst (snd (renderBinding H n kb (e, True, st)))"
  by (cases kb) (simp add: renderBinding_def Let_def split: option.splits prod.splits)

lemma renderBinding_sets_flag:
  assumes "key \<in> set INTERACTIVE_EVENTS" and "checkIsEvent H key"
    and "trim (code b) \<noteq> []" and "type b \<noteq> Spread"
  shows "fst (snd (renderBinding H n (key, Some b) (e, f, st)))"
  using assms interactive_not_reserved[of key]
  by (simp add: renderBinding_def Let_def split: prod.splits)

lemma fold_renderBinding_keeps_flag:
  "fst (snd (fold (renderBinding H n) bs (e, True, st)))"
proof (induction bs arbitrary: e st)
  case Nil
  then show ?case by simp
next
  case (Cons kb bs)
  obtain e' f' st' where r: "renderBinding H n kb (e, True, st) = (e', f', st')"
    by (cases "renderBinding H n kb (e, True, st)")
  with renderBinding_keeps_flag[of H n kb e st] have "f'" by simp
  with r Cons.IH show ?case by simp
qed

lemma fold_renderBinding_sets_flag:
  assumes "(key, Some b) \<in> set bs"
    and "key \<in> set INTERACTIVE_EVENTS" and "checkIsEvent H key"
    and "trim (code b) \<noteq> []" and "type b \<noteq> Spread"
  shows "fst (snd (fold (renderBinding H n) bs (e, f, st)))"
  using assms(1)
proof (induction bs arbitrary: e f st)
  case Nil
  then show ?case by simp
next
  case (Cons kb bs)
  obtain e' f' st' where r: "renderBinding H n kb (e, f, st) = (e', f', st')"
    by (cases "renderBinding H n kb (e, f, st)")
  show ?case
  proof (cases "kb = (key, Some b)")
    case True
    with r renderBinding_sets_flag[OF assms(2-5), of n e f st] have "f'" by simp
    with r fold_renderBinding_keeps_flag[of H n bs e' st'] show ?thesis by simp
  next
    case False
    with Cons.prems have "(key, Some b) \<in> set bs" by simp
    from Cons.IH[OF this] r show ?thesis by simp
  qed
qed

lemma renderOpenTag_directive:
  assumes "(key, Some b) \<in> set (bindings n)"
    and "key \<in> set INTERACTIVE_EVENTS" and "checkIsEvent H key"
    and "trim (code b) \<noteq> []" and "type b \<noteq> Spread"
    and "clientDirective opts \<noteq> Some ''none''"
  shows "\<exists>e. fst (renderOpenTag H opts n st) = e @ '' '' @ directive opts"
proof -
  have F: "f'" if "fold (renderBinding H n) (bindings n) (e, f, s) = (e4, f', s2)" for e f s e4 f' s2
    using fold_renderBinding_sets_flag[OF assms(1-5), of n e f s] that by simp
  show ?thesis
    using assms(6) by (auto simp: renderOpenTag_def Let_def split: prod.splits dest: F)
qed

lemma blockToAstro_plain:
  assumes "plainElement H n"
  shows "\<exists>rest. fst (blockToAstro H opts n st) = fst (renderOpenTag H opts n st) @ rest"
proof (cases n)
  case (Node nm ps bs cs m)
  with assms show ?thesis
    by (simp add: plainElement_def Let_def split: prod.splits option.splits)
qed

text \<open>
  C7, as amended. A regular element that carries a binding whose key is in the allow-list
  and is an event for \<open>checkIsEvent\<close>, whose code is not blank and which is not a spread
  binding, is rendered with the client directive in its text, unless the option
  \<open>clientDirective\<close> is \<open>none\<close>. The directive is the configured one, or
  \<open>client:idle\<close> when none is configured; the option \<open>typescript\<close> plays no part.
\<close>

theorem interactive_event_gets_directive:
  assumes "plainElement H n"
    and "(key, Some b) \<in> set (bindings n)"
    and "key \<in> set INTERACTIVE_EVENTS" and "checkIsEvent H key"
    and "trim (code b) \<noteq> []" and "type b \<noteq> Spread"
    and "clientDirective opts \<noteq> Some ''none''"
  shows "str_includes (fst (blockToAstro H (opts\<lparr>typescript := ts\<rparr>) n st)) (directive opts)"
proof -
  let ?o = "opts\<lparr>typescript := ts\<rparr>"
  have d: "directive ?o = directive opts" and nn: "clientDirective ?o \<noteq> Some ''none''"
    using assms(7) by (simp_all add: directive_def)
  obtain e where e: "fst (renderOpenTag H ?o n st) = e @ '' '' @ directive opts"
    using renderOpenTag_directive[OF assms(2-6) nn, of st] d by auto
  obtain rest where "fst (blockToAstro H ?o n st) = fst (renderOpenTag H ?o n st) @ rest"
    using blockToAstro_plain[OF assms(1)] by blast
  with e have "fst (blockToAstro H ?o n st) = (e @ '' '') @ directive opts @ rest"
    by simp
  then show ?thesis
    using str_includes_append[of "e @ '' ''" "directive opts" rest] by simp
qed

theorem interactive_event_gets_directive_witness:
  "plainElement sampleHelpers counterButton
   \<and> (''onClick'', Some (handler ''state.count++'')) \<in> set (bindings counterButton)
   \<and> ''onClick'' \<in> set INTERACTIVE_EVENTS \<and> checkIsEvent sampleHelpers ''onClick''
   \<and> trim (code (handler ''state.count++'')) \<noteq> [] \<and> type (handler ''state.count++'') \<noteq> Spread
   \<and> clientDirective defaultOptions \<noteq> Some ''none''
   \<and> directive defaultOptions = ''client:idle''
   \<and> str_includes
        (fst (blockToAstro sampleHelpers (defaultOptions\<lparr>typescript := Some False\<rparr>)
               counterButton emptyState))
        ''client:idle''"
proof -
  have h1: "plainElement sampleHelpers counterButton"
    by code_simp
  have h2: "(''onClick'', Some (handler ''state.count++'')) \<in> set (bindings counterButton)"
    by (simp add: counterButton_def)
  have h3: "''onClick'' \<in> set INTERACTIVE_EVENTS"
    by (simp add: INTERACTIVE_EVENTS_def)
  have h4: "checkIsEvent sampleHelpers ''onClick''"
    by (simp add: sampleHelpers_def)
  have h5: "trim (code (handler ''state.count++'')) \<noteq> []"
    by code_simp
  have h6: "type (handler ''state.count++'') \<noteq> Spread"
    by (simp add: handler_def)
  have h7: "clientDirective defaultOptions \<noteq> Some ''none''"
    by (simp add: defaultOptions_def CLIENT_DIRECTIVES_idle_def)
  have d: "directive defaultOptions = ''client:idle''"
    by (simp add: directive_def defaultOptions_def CLIENT_DIRECTIVES_idle_def)
  from interactive_event_gets_directive [OF h1 h2 h3 h4 h5 h6 h7, of "Some False" emptyState]
    h1 h2 h3 h4 h5 h6 h7 d
  show ?thesis
    by simp
qed

text \<open>
  The claim as it stands fails where the caller has disabled the directives: with
  \<open>clientDirective\<close> set to \<open>none\<close> the button with its \<open>onClick\<close> handler is
  rendered without any directive.
\<close>

theorem directive_disabled_counterexample:
  "plainElement sampleHelpers counterButton
   \<and> (''onClick'', Some (handler ''state.count++'')) \<in> set (bindings counterButton)
   \<and> ''onClick'' \<in> set INTERACTIVE_EVENTS
   \<and> fst (blockToAstro sampleHelpers (defaultOptions\<lparr>clientDirective := Some ''none''\<rparr>)
             counterButton emptyState)
       = ''<button class='' @ [dquote] @ ''btn'' @ [dquote]
           @ '' onClick={(event) => count++}>Add</button>''
   \<and> \<not> str_includes
          (fst (blockToAstro sampleHelpers (defaultOptions\<lparr>clientDirective := Some ''none''\<rparr>)
                 counterButton emptyState))
          ''client:''
   \<and> \<not> str_includes
          (fst (blockToAstro sampleHelpers (defaultOptions\<lparr>clientDirective := Some ''none''\<rparr>)
                 counterButton emptyState))
          ''none''"
  by code_simp

lemma collectClassString_children:
  "collectClassString H (Node nm ps bs cs m) st = collectClassString H (Node nm ps bs [] m) st"
  unfolding collectClassString_def collectClasses_def staticClass_def dynamicClass_def
    cssClass_def binding_at_def node.sel
  by (rule refl)

lemma renderBinding_children:
  "renderBinding H (Node nm ps bs cs m) = renderBinding H (Node nm ps bs [] m)"
  unfolding renderBinding_def node.sel
  by (rule refl)

lemma renderOpenTag_children:
  "renderOpenTag H opts (Node nm ps bs cs m) st = renderOpenTag H opts (Node nm ps bs [] m) st"
  by (simp add: renderOpenTag_def collectClassString_children[of H nm ps bs cs m]
      renderBinding_children[of H nm ps bs cs m])

text \<open>
  C8. A regular element whose tag name is in the self-closing set is rendered as the
  opening tag of the same node without children, followed by \<open> />\<close>: whatever
  children the node carries, none is rendered, and no closing tag follows.
\<close>

theorem self_closing_no_children:
  assumes "plainElement H (Node nm ps bs cs m)"
    and "nm \<in> SELF_CLOSING_HTML_TAGS H"
  shows "blockToAstro H opts (Node nm ps bs cs m) st =
           (fst (renderOpenTag H opts (Node nm ps bs [] m) st) @ '' />'',
            snd (renderOpenTag H opts (Node nm ps bs [] m) st))"
  using assms
  by (simp add: plainElement_def Let_def renderOpenTag_children[of H opts nm ps bs cs m]
      split: prod.splits)

theorem self_closing_no_children_witness:
  "plainElement sampleHelpers lineBreak
   \<and> name lineBreak \<in> SELF_CLOSING_HTML_TAGS sampleHelpers
   \<and> children lineBreak \<noteq> []
   \<and> blockToAstro sampleHelpers defaultOptions lineBreak emptyState
       = (''<br class='' @ [dquote] @ ''gap'' @ [dquote] @ '' />'', emptyState)"
proof -
  let ?kids = "[Node ''div'' [(''_text'', ''ignored'')] [] [] None]"
  have h1: "plainElement sampleHelpers (Node ''br'' [(''class'', ''gap'')] [] ?kids None)"
    by code_simp
  have h2: "''br'' \<in> SELF_CLOSING_HTML_TAGS sampleHelpers"
    by (simp add: sampleHelpers_def)
  have e: "renderOpenTag sampleHelpers defaultOptions (Node ''br'' [(''class'', ''gap'')] [] [] None) emptyState
      = (''<br class='' @ [dquote] @ ''gap'' @ [dquote], emptyState)"
    by code_simp
  from self_closing_no_children [OF h1 h2, of defaultOptions emptyState] e h1 h2
  show ?thesis
    by (simp add: lineBreak_def)
qed
section \<open>The component assembler\<close>

lemma untouched_unchanged:
  assumes "untouched c s0 s j" and "unchanged s s'"
  shows "untouched c s0 s' j"
  using assms by (auto simp: untouched_def unchanged_def)

lemma untouched_mutatesOnly:
  assumes "untouched c s0 s j" and "mutatesOnly j s s'"
  shows "untouched c s0 s' j"
  using assms by (auto simp: untouched_def mutatesOnly_def)

lemma untouched_returned:
  assumes "untouched c s0 s j" and "mutatesOnly j s s'" and "r = j \<or> limit s \<le> r" and "r < limit s'"
  shows "untouched c s0 s' r"
  using assms by (auto simp: untouched_def mutatesOnly_def)

lemma untouched_clone:
  assumes "respectsOwnership C" and "c < limit s0" and "fastClone C c s0 = (j, s1)"
  shows "untouched c s0 s1 j"
proof -
  from assms(1) have "\<forall>a s. a < limit s \<longrightarrow>
      (case fastClone C a s of (r, s') \<Rightarrow>
         unchanged s s' \<and> limit s \<le> r \<and> r < limit s' \<and> objects s' r = objects s a)"
    by (simp add: respectsOwnership_def)
  from this[rule_format, OF assms(2)] assms(3)
  have "unchanged s0 s1 \<and> limit s0 \<le> j \<and> j < limit s1"
    by simp
  with assms(2) show ?thesis
    by (auto simp: untouched_def unchanged_def)
qed

lemma untouched_options:
  assumes "respectsOwnership C" and "untouched c s0 s j" and "initializeOptions C c d s = (opts, s')"
  shows "untouched c s0 s' j"
proof -
  from assms(2) have "c < limit s" by (simp add: untouched_def)
  with assms(1) have "unchanged s (snd (initializeOptions C c d s))"
    by (simp add: respectsOwnership_def)
  with assms(2,3) show ?thesis
    by (simp add: untouched_unchanged)
qed

lemma untouched_preJson:
  assumes "respectsOwnership C" and "untouched c s0 s j"
    and "(case po of Some ps \<Rightarrow> runPreJsonPlugins C ps j s | None \<Rightarrow> (j, s)) = (r, s')"
  shows "untouched c s0 s' r"
proof (cases po)
  case None
  with assms show ?thesis by simp
next
  case (Some ps)
  from assms(2) have "j < limit s" by (simp add: untouched_def)
  with assms(1) have "case runPreJsonPlugins C ps j s of (r, s') \<Rightarrow>
      mutatesOnly j s s' \<and> (r = j \<or> limit s \<le> r) \<and> r < limit s'"
    by (simp add: respectsOwnership_def)
  with Some assms(3) have "mutatesOnly j s s' \<and> (r = j \<or> limit s \<le> r) \<and> r < limit s'"
    by simp
  with assms(2) show ?thesis
    by (blast intro: untouched_returned)
qed

lemma untouched_postJson:
  assumes "respectsOwnership C" and "untouched c s0 s j"
    and "(case po of Some ps \<Rightarrow> runPostJsonPlugins C ps j s | None \<Rightarrow> (j, s)) = (r, s')"
  shows "untouched c s0 s' r"
proof (cases po)
  case None
  with assms show ?thesis by simp
next
  case (Some ps)
  from assms(2) have "j < limit s" by (simp add: untouched_def)
  with assms(1) have "case runPostJsonPlugins C ps j s of (r, s') \<Rightarrow>
      mutatesOnly j s s' \<and> (r = j \<or> limit s \<le> r) \<and> r < limit s'"
    by (simp add: respectsOwnership_def)
  with Some assms(3) have "mutatesOnly j s s' \<and> (r = j \<or> limit s \<le> r) \<and> r < limit s'"
    by simp
  with assms(2) show ?thesis
    by (blast intro: untouched_returned)
qed

lemma untouched_collectCss:
  assumes "respectsOwnership C" and "untouched c s0 s j" and "collectCss C j p s = (css, s')"
  shows "untouched c s0 s' j"
proof -
  from assms(2) have "j < limit s" by (simp add: untouched_def)
  with assms(1) have "mutatesOnly j s (snd (collectCss C j p s))"
    by (simp add: respectsOwnership_def)
  with assms(2,3) show ?thesis
    by (simp add: untouched_mutatesOnly)
qed

lemma untouched_strip:
  assumes "respectsOwnership C" and "untouched c s0 s j"
  shows "untouched c s0 (stripMetaProperties C j s) j"
proof -
  from assms(2) have "j < limit s" by (simp add: untouched_def)
  with assms(1) have "mutatesOnly j s (stripMetaProperties C j s)"
    by (simp add: respectsOwnership_def)
  with assms(2) show ?thesis
    by (simp add: untouched_mutatesOnly)
qed

lemma untouched_preCode:
  assumes "respectsOwnership C" and "untouched c s0 s j"
    and "(case po of Some ps \<Rightarrow> runPreCodePlugins C ps j out s | None \<Rightarrow> (out, s)) = (out', s')"
  shows "untouched c s0 s' j"
proof (cases po)
  case None
  with assms show ?thesis by simp
next
  case (Some ps)
  from assms(2) have "j < limit s" by (simp add: untouched_def)
  with assms(1) have "mutatesOnly j s (snd (runPreCodePlugins C ps j out s))"
    by (simp add: respectsOwnership_def)
  with Some assms(2,3) show ?thesis
    by (simp add: untouched_mutatesOnly)
qed

lemma untouched_postCode:
  assumes "respectsOwnership C" and "untouched c s0 s j"
    and "(case po of Some ps \<Rightarrow> runPostCodePlugins C ps j out s | None \<Rightarrow> (out, s)) = (out', s')"
  shows "untouched c s0 s' j"
proof (cases po)
  case None
  with assms show ?thesis by simp
next
  case (Some ps)
  from assms(2) have "j < limit s" by (simp add: untouched_def)
  with assms(1) have "mutatesOnly j s (snd (runPostCodePlugins C ps j out s))"
    by (simp add: respectsOwnership_def)
  with Some assms(2,3) show ?thesis
    by (simp add: untouched_mutatesOnly)
qed

text \<open>
  C9. Where the collaborators keep to their contracts (\<open>respectsOwnership\<close>), one
  run of \<open>componentToAstro\<close> leaves the caller's component object as it was: every
  stage that writes is handed the clone, or what a plugin stage returned for it, never
  the object the caller passed in.
\<close>

theorem caller_component_unchanged:
  assumes "respectsOwnership C" and "component < limit s0"
  shows "objects (fst (snd (componentToAstro H C userOptions component s0 con))) component
           = objects s0 component"
proof -
  obtain json0 s1 where e1: "fastClone C component s0 = (json0, s1)"
    by (cases "fastClone C component s0")
  obtain opts s2 where e2: "initializeOptions C component (withDefaults userOptions) s1 = (opts, s2)"
    by (cases "initializeOptions C component (withDefaults userOptions) s1")
  obtain json1 s3 where e3: "(case plugins opts of Some ps \<Rightarrow> runPreJsonPlugins C ps json0 s2
      | None \<Rightarrow> (json0, s2)) = (json1, s3)"
    by (cases "case plugins opts of Some ps \<Rightarrow> runPreJsonPlugins C ps json0 s2 | None \<Rightarrow> (json0, s2)")
  obtain css s4 where e4: "collectCss C json1 (hashJson C (objects s3 json1)) s3 = (css, s4)"
    by (cases "collectCss C json1 (hashJson C (objects s3 json1)) s3")
  obtain json2 s5 where e5: "(case plugins opts of Some ps \<Rightarrow> runPostJsonPlugins C ps json1 s4
      | None \<Rightarrow> (json1, s4)) = (json2, s5)"
    by (cases "case plugins opts of Some ps \<Rightarrow> runPostJsonPlugins C ps json1 s4 | None \<Rightarrow> (json1, s4)")
  define s6 where "s6 = stripMetaProperties C json2 s5"
  have u1: "untouched component s0 s1 json0"
    using untouched_clone[OF assms e1] .
  have u2: "untouched component s0 s2 json0"
    using untouched_options[OF assms(1) u1 e2] .
  have u3: "untouched component s0 s3 json1"
    using untouched_preJson[OF assms(1) u2 e3] .
  have u4: "untouched component s0 s4 json1"
    using untouched_collectCss[OF assms(1) u3 e4] .
  have u5: "untouched component s0 s5 json2"
    using untouched_postJson[OF assms(1) u4 e5] .
  have u6: "untouched component s0 s6 json2"
    unfolding s6_def using untouched_strip[OF assms(1) u5] .
  have "\<exists>out1 s7 out2 out3 s8.
      (case plugins opts of Some ps \<Rightarrow> runPreCodePlugins C ps json2 out1 s6 | None \<Rightarrow> (out1, s6)) = (out2, s7)
      \<and> (case plugins opts of Some ps \<Rightarrow> runPostCodePlugins C ps json2 out3 s7 | None \<Rightarrow> (out3, s7))
          = (fst (componentToAstro H C userOptions component s0 con), s8)
      \<and> fst (snd (componentToAstro H C userOptions component s0 con)) = s8"
    unfolding componentToAstro_def Let_def e1 e2 e3 e4 e5 s6_def prod.case
    by (auto split: prod.splits)
  then obtain out1 s7 out2 out3 s8 where
    e7: "(case plugins opts of Some ps \<Rightarrow> runPreCodePlugins C ps json2 out1 s6 | None \<Rightarrow> (out1, s6)) = (out2, s7)"
    and e8: "(case plugins opts of Some ps \<Rightarrow> runPostCodePlugins C ps json2 out3 s7 | None \<Rightarrow> (out3, s7))
          = (fst (componentToAstro H C userOptions component s0 con), s8)"
    and r: "fst (snd (componentToAstro H C userOptions component s0 con)) = s8"
    by blast
  have u7: "untouched component s0 s7 json2"
    using untouched_preCode[OF assms(1) u6 e7] .
  have u8: "untouched component s0 s8 json2"
    using untouched_postCode[OF assms(1) u7 e8] .
  from u8 r show ?thesis
    by (simp add: untouched_def)
qed

theorem caller_component_unchanged_witness:
  "respectsOwnership sampleCollaborators
   \<and> (0 :: addr) < limit callerStore
   \<and> objects (fst (snd (componentToAstro sampleHelpers sampleCollaborators pluginOptions 0
                          callerStore []))) 0
       = objects callerStore 0
   \<and> state (objects callerStore 0) = []
   \<and> state (objects (fst (snd (componentToAstro sampleHelpers sampleCollaborators pluginOptions 0
                                 callerStore []))) 1)
       = [(''marker'', None)]"
proof -
  have r: "respectsOwnership sampleCollaborators"
    by (simp add: respectsOwnership_def sampleCollaborators_def unchanged_def mutatesOnly_def)
  have l: "(0 :: addr) < limit callerStore"
    by (simp add: callerStore_def)
  have o: "state (objects callerStore 0) = []"
    by (simp add: callerStore_def mountedComponent_def)
  have c: "state (objects (fst (snd (componentToAstro sampleHelpers sampleCollaborators pluginOptions 0
                                 callerStore []))) 1)
       = [(''marker'', None)]"
    by code_simp
  from caller_component_unchanged [OF r l, of sampleHelpers pluginOptions "[]"] r l o c
  show ?thesis
    by simp
qed

end
